theory Spec2Isabelle
  imports Complex_Main "HOL-Library.Code_Target_Nat" "HOL-Library.Sublist"
begin

section \<open>Strings of the receipt service\<close>

text \<open>
  The receipt service (the module that turns the text of a scanned receipt into a
  transaction) works on JavaScript strings: sequences of UTF-16 code units, measured by
  \<open>length\<close> in code units. A string is modelled as the list of its code units, so that
  the rupee sign U+20B9 of the patterns is one element. \<open>js\<close> embeds an ASCII literal.
\<close>

type_synonym jchar = nat
type_synonym jstring = "jchar list"

definition js :: "string \<Rightarrow> jstring" where
  "js s = map of_char s"

abbreviation rupee :: jchar where
  "rupee \<equiv> 0x20B9"

text \<open>
  White space as \<open>String.prototype.trim\<close> and the class \<open>\s\<close> see it: TAB, LF, VT, FF, CR,
  SPACE, NBSP, U+1680, U+2000 to U+200A, U+2028, U+2029, U+202F, U+205F, U+3000, U+FEFF.
  The class \<open>\d\<close> is the ten ASCII digits.
\<close>

definition isSpace :: "jchar \<Rightarrow> bool" where
  "isSpace c \<longleftrightarrow>
     c = 0x9 \<or> c = 0xA \<or> c = 0xB \<or> c = 0xC \<or> c = 0xD \<or> c = 0x20 \<or> c = 0xA0 \<or> c = 0x1680
     \<or> (0x2000 \<le> c \<and> c \<le> 0x200A)
     \<or> c = 0x2028 \<or> c = 0x2029 \<or> c = 0x202F \<or> c = 0x205F \<or> c = 0x3000 \<or> c = 0xFEFF"

definition isDigit :: "jchar \<Rightarrow> bool" where
  "isDigit c \<longleftrightarrow> 0x30 \<le> c \<and> c \<le> 0x39"

definition trim :: "jstring \<Rightarrow> jstring" where
  "trim s = rev (dropWhile isSpace (rev (dropWhile isSpace s)))"

text \<open>\<open>s.split(sep)\<close> for a separator of one code unit; the empty string gives one empty piece.\<close>

fun split :: "jchar \<Rightarrow> jstring \<Rightarrow> jstring list" where
  "split sep [] = [[]]"
| "split sep (c # cs) =
     (if c = sep then [] # split sep cs
      else (case split sep cs of [] \<Rightarrow> [[c]] | l # ls \<Rightarrow> (c # l) # ls))"

text \<open>\<open>xs.join(sep)\<close>.\<close>

fun join :: "jstring \<Rightarrow> jstring list \<Rightarrow> jstring" where
  "join sep [] = []"
| "join sep [x] = x"
| "join sep (x # y # ys) = x @ sep @ join sep (y # ys)"

text \<open>\<open>s.includes(k)\<close>: \<open>k\<close> occurs in \<open>s\<close> as a contiguous run.\<close>

fun startsWith :: "jstring \<Rightarrow> jstring \<Rightarrow> bool" where
  "startsWith s [] = True"
| "startsWith [] (k # ks) = False"
| "startsWith (c # cs) (k # ks) = (c = k \<and> startsWith cs ks)"

fun includesStr :: "jstring \<Rightarrow> jstring \<Rightarrow> bool" where
  "includesStr [] k = startsWith [] k"
| "includesStr (c # cs) k = (startsWith (c # cs) k \<or> includesStr cs k)"

text \<open>
  \<open>s.toLowerCase()\<close>. The service only ever searches the result for ASCII words, so the
  model keeps what such a search can see: the letters A to Z go to a to z, the Kelvin
  sign U+212A goes to \<open>k\<close>, and U+0130 goes to \<open>i\<close> followed by U+0307. These are the only
  code points whose lower-case form holds an ASCII unit; every other unit is left as it
  is (the runtime maps it to units outside ASCII).
\<close>

definition lowerUnit :: "jchar \<Rightarrow> jstring" where
  "lowerUnit c =
     (if 0x41 \<le> c \<and> c \<le> 0x5A then [c + 0x20]
      else if c = 0x212A then [0x6B]
      else if c = 0x130 then [0x69, 0x307]
      else [c])"

definition toLowerCase :: "jstring \<Rightarrow> jstring" where
  "toLowerCase s = concat (map lowerUnit s)"

section \<open>Regular expressions\<close>

text \<open>
  The patterns of the service are regular-expression literals. They are built from
  character classes, sequence, alternation, greedy repetition and capture groups, and are
  run by backtracking with the priorities of the language: the left alternative before the
  right, one more iteration before stopping. \<open>rmatch\<close> returns every way of matching at
  the head of the string, best first, each as the rest of the string with the captures.
\<close>

datatype citem = Digit | Space | Unit jchar

datatype regex =
    Eps
  | Class "citem list"
  | Seq regex regex
  | Alt regex regex
  | Star regex
  | Group nat regex

text \<open>
  Under the flag \<open>i\<close> two units match when they canonicalize to the same unit. Without the
  flag \<open>u\<close> a unit outside ASCII never canonicalizes into ASCII, so for the ASCII letters of
  the patterns this is upper-casing a to z.
\<close>

definition canonicalize :: "jchar \<Rightarrow> jchar" where
  "canonicalize c = (if 0x61 \<le> c \<and> c \<le> 0x7A then c - 0x20 else c)"

fun in_item :: "bool \<Rightarrow> citem \<Rightarrow> jchar \<Rightarrow> bool" where
  "in_item ic Digit c = isDigit c"
| "in_item ic Space c = isSpace c"
| "in_item ic (Unit u) c = (if ic then canonicalize c = canonicalize u else c = u)"

definition in_class :: "bool \<Rightarrow> citem list \<Rightarrow> jchar \<Rightarrow> bool" where
  "in_class ic cs c = list_ex (\<lambda>i. in_item ic i c) cs"

type_synonym captures = "nat \<Rightarrow> jstring option"
type_synonym mstate = "jstring \<times> captures"

text \<open>
  Greedy repetition of a matcher \<open>f\<close>: an iteration that consumes nothing is not taken, so
  the length of the string bounds the number of iterations.
\<close>

primrec star_iter :: "(mstate \<Rightarrow> mstate list) \<Rightarrow> nat \<Rightarrow> mstate \<Rightarrow> mstate list" where
  "star_iter f 0 st = [st]"
| "star_iter f (Suc k) st =
     concat (map (star_iter f k) (filter (\<lambda>st'. length (fst st') < length (fst st)) (f st)))
       @ [st]"

lemma star_iter_cong [fundef_cong]:
  assumes "k = k'" and "st = st'" and "\<And>x. f x = g x"
  shows "star_iter f k st = star_iter g k' st'"
proof -
  from assms(3) have "f = g" by auto
  with assms(1,2) show ?thesis by simp
qed

fun rmatch :: "bool \<Rightarrow> regex \<Rightarrow> mstate \<Rightarrow> mstate list" where
  "rmatch ic Eps st = [st]"
| "rmatch ic (Class cs) (s, caps) =
     (case s of [] \<Rightarrow> [] | c # rest \<Rightarrow> if in_class ic cs c then [(rest, caps)] else [])"
| "rmatch ic (Seq r1 r2) st = concat (map (rmatch ic r2) (rmatch ic r1 st))"
| "rmatch ic (Alt r1 r2) st = rmatch ic r1 st @ rmatch ic r2 st"
| "rmatch ic (Star r) st = star_iter (rmatch ic r) (length (fst st)) st"
| "rmatch ic (Group n r) (s, caps) =
     map (\<lambda>(s', caps'). (s', caps'(n \<mapsto> take (length s - length s') s)))
       (rmatch ic r (s, caps))"

text \<open>The pattern syntax used by the literals: \<open>c\<close>, \<open>abc\<close>, \<open>r?\<close>, \<open>r+\<close>, \<open>r{m,n}\<close>.\<close>

definition Lit :: "char \<Rightarrow> regex" where
  "Lit c = Class [Unit (of_char c)]"

fun Str :: "string \<Rightarrow> regex" where
  "Str [] = Eps"
| "Str [c] = Lit c"
| "Str (c # d # cs) = Seq (Lit c) (Str (d # cs))"

definition Opt :: "regex \<Rightarrow> regex" where
  "Opt r = Alt r Eps"

definition Plus :: "regex \<Rightarrow> regex" where
  "Plus r = Seq r (Star r)"

fun Rep :: "nat \<Rightarrow> nat \<Rightarrow> regex \<Rightarrow> regex" where
  "Rep 0 0 r = Eps"
| "Rep 0 (Suc n) r = Opt (Seq r (Rep 0 n r))"
| "Rep (Suc m) 0 r = Eps"
| "Rep (Suc m) (Suc n) r = Seq r (Rep m n r)"

fun Alts :: "regex list \<Rightarrow> regex" where
  "Alts [] = Eps"
| "Alts [r] = r"
| "Alts (r # q # rs) = Alt r (Alts (q # rs))"

fun ngroups :: "regex \<Rightarrow> nat" where
  "ngroups Eps = 0"
| "ngroups (Class cs) = 0"
| "ngroups (Seq r1 r2) = ngroups r1 + ngroups r2"
| "ngroups (Alt r1 r2) = ngroups r1 + ngroups r2"
| "ngroups (Star r) = ngroups r"
| "ngroups (Group n r) = Suc (ngroups r)"

text \<open>A regular-expression object: the pattern and its flags \<open>i\<close> and \<open>g\<close>.\<close>

record regexp =
  source :: regex
  ignoreCase :: bool
  global :: bool

text \<open>The best match that starts at the head of \<open>s\<close>: the matched text and the captures.\<close>

definition match_here :: "bool \<Rightarrow> regex \<Rightarrow> jstring \<Rightarrow> (jstring \<times> captures) option" where
  "match_here ic r s =
     (case rmatch ic r (s, Map.empty) of
        [] \<Rightarrow> None
      | (s', caps) # _ \<Rightarrow> Some (take (length s - length s') s, caps))"

text \<open>The leftmost match: the start positions are tried from left to right.\<close>

fun re_exec :: "bool \<Rightarrow> regex \<Rightarrow> jstring \<Rightarrow> (jstring \<times> captures) option" where
  "re_exec ic r [] = match_here ic r []"
| "re_exec ic r (c # cs) =
     (case match_here ic r (c # cs) of
        Some m \<Rightarrow> Some m
      | None \<Rightarrow> re_exec ic r cs)"

text \<open>
  All matches, left to right, without overlap (flag \<open>g\<close>): after a match of \<open>n\<close> units the
  next attempt starts \<open>n\<close> units further, or one unit further when \<open>n = 0\<close>. \<open>skip\<close> counts
  the positions still covered by the last match.
\<close>

fun match_all :: "bool \<Rightarrow> regex \<Rightarrow> nat \<Rightarrow> jstring \<Rightarrow> jstring list" where
  "match_all ic r skip [] =
     (if 0 < skip then []
      else (case match_here ic r [] of None \<Rightarrow> [] | Some (m, caps) \<Rightarrow> [m]))"
| "match_all ic r skip (c # cs) =
     (if 0 < skip then match_all ic r (skip - 1) cs
      else (case match_here ic r (c # cs) of
              None \<Rightarrow> match_all ic r 0 cs
            | Some (m, caps) \<Rightarrow> m # match_all ic r (length m - 1) cs))"

text \<open>
  \<open>s.match(re)\<close>. The result is \<open>null\<close> (\<open>None\<close>) or a non-empty array, given here as its
  element 0 and the list of its further elements. Without the flag \<open>g\<close> element 0 is the
  matched text and element \<open>n\<close> is capture group \<open>n\<close>, undefined (\<open>None\<close>) when the group took
  no part. With the flag \<open>g\<close> the array holds the texts of all the matches and no captures.
\<close>

type_synonym match_array = "jstring \<times> jstring option list"

definition string_match :: "jstring \<Rightarrow> regexp \<Rightarrow> match_array option" where
  "string_match s re =
     (if global re then
        (case match_all (ignoreCase re) (source re) 0 s of
           [] \<Rightarrow> None
         | m # ms \<Rightarrow> Some (m, map Some ms))
      else
        (case re_exec (ignoreCase re) (source re) s of
           None \<Rightarrow> None
         | Some (m, caps) \<Rightarrow> Some (m, map caps [1..<Suc (ngroups (source re))])))"

text \<open>\<open>matches[n]\<close> for \<open>n > 0\<close>: undefined beyond the end of the array.\<close>

definition element :: "match_array \<Rightarrow> nat \<Rightarrow> jstring option" where
  "element m n =
     (if n = 0 then Some (fst m)
      else if n - 1 < length (snd m) then snd m ! (n - 1)
      else None)"

text \<open>\<open>s.replace(/[cs]/g, '')\<close> and \<open>s.replace(/[^cs]/g, '')\<close> for a character class.\<close>

definition remove_class :: "bool \<Rightarrow> citem list \<Rightarrow> jstring \<Rightarrow> jstring" where
  "remove_class ic cs s = filter (\<lambda>c. \<not> in_class ic cs c) s"

definition keep_class :: "bool \<Rightarrow> citem list \<Rightarrow> jstring \<Rightarrow> jstring" where
  "keep_class ic cs s = filter (\<lambda>c. in_class ic cs c) s"

section \<open>The receipt parser\<close>

subsection \<open>Category table\<close>

text \<open>
  \<open>categoryMappings\<close>: an object literal, read by \<open>Object.entries\<close> in the order in which
  its keys are written.
\<close>

definition categoryMappings :: "(jstring \<times> jstring list) list" where
  "categoryMappings =
    [(js ''Food & Dining'', map js
        [''restaurant'', ''cafe'', ''food'', ''pizza'', ''burger'', ''hotel'', ''dhaba'', ''canteen'',
         ''mcdonald'', ''kfc'', ''dominos'', ''pizza hut'', ''subway'', ''cafe coffee day'',
         ''starbucks'', ''chai'', ''tea'', ''swiggy'', ''zomato'', ''uber eats'']),
     (js ''Transportation'', map js
        [''uber'', ''ola'', ''taxi'', ''auto'', ''bus'', ''metro'', ''railway'', ''petrol'', ''diesel'',
         ''fuel'', ''gas'', ''station'', ''transport'', ''parking'', ''toll'', ''rapido'']),
     (js ''Shopping'', map js
        [''mall'', ''store'', ''shop'', ''market'', ''bazaar'', ''amazon'', ''flipkart'', ''myntra'',
         ''clothing'', ''fashion'', ''shoes'', ''electronics'', ''mobile'', ''laptop'']),
     (js ''Healthcare'', map js
        [''hospital'', ''clinic'', ''doctor'', ''medical'', ''pharmacy'', ''medicine'', ''health'',
         ''apollo'', ''fortis'', ''max'', ''aiims'', ''dental'']),
     (js ''Utilities'', map js
        [''electricity'', ''water'', ''gas'', ''internet'', ''wifi'', ''mobile'', ''phone'',
         ''broadband'', ''cable'', ''dish'', ''airtel'', ''jio'', ''vodafone'', ''bsnl'']),
     (js ''Entertainment'', map js
        [''movie'', ''cinema'', ''theatre'', ''pvr'', ''inox'', ''game'', ''park'', ''mall'',
         ''netflix'', ''amazon prime'', ''hotstar'', ''spotify'', ''youtube''])]"

subsection \<open>\<open>determineCategory\<close>\<close>

fun findKeyword :: "jstring \<Rightarrow> jstring list \<Rightarrow> bool" where
  "findKeyword searchText [] = False"
| "findKeyword searchText (keyword # keywords) =
     (if includesStr searchText (toLowerCase keyword) then True
      else findKeyword searchText keywords)"

fun findCategory :: "jstring \<Rightarrow> (jstring \<times> jstring list) list \<Rightarrow> jstring" where
  "findCategory searchText [] = js ''Others''"
| "findCategory searchText ((category, keywords) # entries) =
     (if findKeyword searchText keywords then category
      else findCategory searchText entries)"

definition searchTextOf :: "jstring \<Rightarrow> jstring list \<Rightarrow> jstring" where
  "searchTextOf merchant items = toLowerCase (merchant @ js '' '' @ join (js '' '') items)"

definition determineCategory :: "jstring \<Rightarrow> jstring list \<Rightarrow> jstring" where
  "determineCategory merchant items = findCategory (searchTextOf merchant items) categoryMappings"

subsection \<open>Patterns of \<open>parseReceiptText\<close>\<close>

text \<open>
  The shared pieces of the literals: the currency marker \<open>(?:rs\.?|U+20B9)\<close> and the numeric
  tokens \<open>\d+(?:,\d+)*(?:\.\d{2})?\<close> (amounts) and \<open>\d+(?:\.\d{2})?\<close> (item prices).
\<close>

definition currency :: regex where
  "currency = Alt (Seq (Str ''rs'') (Opt (Lit CHR ''.''))) (Class [Unit rupee])"

definition number :: regex where
  "number =
     Seq (Plus (Class [Digit]))
       (Seq (Star (Seq (Lit CHR '','') (Plus (Class [Digit]))))
            (Opt (Seq (Lit CHR ''.'') (Rep 2 2 (Class [Digit])))))"

definition price :: regex where
  "price = Seq (Plus (Class [Digit])) (Opt (Seq (Lit CHR ''.'') (Rep 2 2 (Class [Digit]))))"

text \<open>
  \<open>amountPatterns\<close>, in the order of the array. The first and the last carry the flag \<open>i\<close>;
  the second and the third carry the flag \<open>g\<close> and not the flag \<open>i\<close>.
\<close>

definition amountPatterns :: "regexp list" where
  "amountPatterns =
    [\<lparr>source =
        Seq (Alts [Str ''total'', Str ''amount'', Str ''grand total'', Str ''net amount'',
                   Str ''payable''])
          (Seq (Star (Class [Unit (of_char CHR '':''), Space]))
            (Seq (Opt currency) (Seq (Star (Class [Space])) (Group 1 number)))),
      ignoreCase = True, global = False\<rparr>,
     \<lparr>source = Seq currency (Seq (Star (Class [Space])) (Group 1 number)),
      ignoreCase = False, global = True\<rparr>,
     \<lparr>source = Seq (Group 1 number) (Seq (Star (Class [Space])) currency),
      ignoreCase = False, global = True\<rparr>,
     \<lparr>source =
        Seq (Str ''total'')
          (Seq (Plus (Class [Unit (of_char CHR '':''), Space])) (Group 1 number)),
      ignoreCase = True, global = False\<rparr>]"

text \<open>\<open>datePatterns\<close>; the numeric date \<open>\d{1,2}[-\/]\d{1,2}[-\/]\d{2,4}\<close> is shared.\<close>

definition numericDate :: regex where
  "numericDate =
     Seq (Rep 1 2 (Class [Digit]))
       (Seq (Class [Unit (of_char CHR ''-''), Unit (of_char CHR ''/'')])
         (Seq (Rep 1 2 (Class [Digit]))
           (Seq (Class [Unit (of_char CHR ''-''), Unit (of_char CHR ''/'')])
             (Rep 2 4 (Class [Digit])))))"

definition datePatterns :: "regexp list" where
  "datePatterns =
    [\<lparr>source = Group 1 numericDate, ignoreCase = False, global = False\<rparr>,
     \<lparr>source =
        Group 1
          (Seq (Rep 1 2 (Class [Digit]))
            (Seq (Plus (Class [Space]))
              (Seq (Alts [Str ''jan'', Str ''feb'', Str ''mar'', Str ''apr'', Str ''may'',
                          Str ''jun'', Str ''jul'', Str ''aug'', Str ''sep'', Str ''oct'',
                          Str ''nov'', Str ''dec''])
                (Seq (Plus (Class [Space])) (Rep 2 4 (Class [Digit])))))),
      ignoreCase = True, global = False\<rparr>,
     \<lparr>source =
        Seq (Alt (Str ''date'') (Str ''dt''))
          (Seq (Star (Class [Unit (of_char CHR '':''), Space])) (Group 1 numericDate)),
      ignoreCase = True, global = False\<rparr>]"

text \<open>The test of the merchant lines, \<open>/\d+/\<close>, and the test of the item lines.\<close>

definition digitsPattern :: regexp where
  "digitsPattern = \<lparr>source = Plus (Class [Digit]), ignoreCase = False, global = False\<rparr>"

definition itemPattern :: regexp where
  "itemPattern =
    \<lparr>source =
       Alt (Seq (Group 1 price) (Seq (Star (Class [Space])) currency))
           (Seq currency (Seq (Star (Class [Space])) (Group 2 price))),
     ignoreCase = True, global = False\<rparr>"

text \<open>The class \<open>[\d\sU+20B9rs\.-]\<close> removed from an item line, under the flags \<open>g\<close> and \<open>i\<close>.\<close>

definition itemNoise :: "citem list" where
  "itemNoise =
     [Digit, Space, Unit rupee, Unit (of_char CHR ''r''), Unit (of_char CHR ''s''),
      Unit (of_char CHR ''.''), Unit (of_char CHR ''-'')]"

subsection \<open>Numbers\<close>

text \<open>
  \<open>parseFloat\<close> on the strings that reach it here, which hold digits and dots only: the
  longest prefix of the form digits, digits dot digits, digits dot, or dot digits is read
  as a decimal; \<open>None\<close> is \<open>NaN\<close>. The value is kept as the exact decimal. The program
  holds the nearest double; the three comparisons of the range test give the same
  answers on both unless the text is a dot followed by more than three hundred zeros.
\<close>

definition digitsValue :: "jstring \<Rightarrow> nat" where
  "digitsValue ds = foldl (\<lambda>a c. 10 * a + (c - 0x30)) 0 ds"

definition parseFloat :: "jstring \<Rightarrow> rat option" where
  "parseFloat s =
     (let ip = takeWhile isDigit s;
          fp = (case dropWhile isDigit s of
                  [] \<Rightarrow> []
                | c # cs \<Rightarrow> if c = of_char CHR ''.'' then takeWhile isDigit cs else [])
      in if ip = [] \<and> fp = [] then None
         else Some (of_nat (digitsValue ip) + of_nat (digitsValue fp) / 10 ^ length fp))"

subsection \<open>\<open>parseReceiptText\<close>\<close>

record 'd parsed =
  amount :: "rat option"
  merchant :: "jstring option"
  date :: "'d option"
  items :: "jstring list"
  rawText :: jstring

text \<open>
  The amount loop. For each pattern that matches, the candidate is \<open>matches[1] || matches[0]\<close>
  (element 1 unless it is undefined or empty), stripped to digits, dots and commas, then
  of its commas, and parsed; it is taken when \<open>numAmount && numAmount > 0 && numAmount < 100000\<close>.
\<close>

definition candidate :: "match_array \<Rightarrow> jstring" where
  "candidate matches =
     (case element matches 1 of
        None \<Rightarrow> fst matches
      | Some [] \<Rightarrow> fst matches
      | Some (c # cs) \<Rightarrow> c # cs)"

definition cleanAmount :: "jstring \<Rightarrow> jstring" where
  "cleanAmount s =
     remove_class False [Unit (of_char CHR '','')]
       (keep_class False [Digit, Unit (of_char CHR ''.''), Unit (of_char CHR '','')] s)"

definition reasonable :: "rat option \<Rightarrow> bool" where
  "reasonable numAmount =
     (case numAmount of
        None \<Rightarrow> False
      | Some q \<Rightarrow> q \<noteq> 0 \<and> 0 < q \<and> q < 100000)"

fun extractAmount :: "regexp list \<Rightarrow> jstring \<Rightarrow> rat option" where
  "extractAmount [] text = None"
| "extractAmount (pattern # patterns) text =
     (case string_match text pattern of
        None \<Rightarrow> extractAmount patterns text
      | Some matches \<Rightarrow>
          (let numAmount = parseFloat (cleanAmount (candidate matches))
           in if reasonable numAmount then numAmount else extractAmount patterns text))"

text \<open>
  The date loop. \<open>new Date(dateStr)\<close> reads a text that is not in the ISO format by rules
  of the runtime, so the reading is a parameter: \<open>parseDate dateStr\<close> is the date, or
  \<open>None\<close> for an invalid date. The argument is capture group 1; \<open>new Date(undefined)\<close> is
  an invalid date.
\<close>

fun extractDate :: "(jstring \<Rightarrow> 'd option) \<Rightarrow> regexp list \<Rightarrow> jstring \<Rightarrow> 'd option" where
  "extractDate parseDate [] text = None"
| "extractDate parseDate (pattern # patterns) text =
     (case string_match text pattern of
        None \<Rightarrow> extractDate parseDate patterns text
      | Some m \<Rightarrow>
          (case element m 1 of
             None \<Rightarrow> extractDate parseDate patterns text
           | Some dateStr \<Rightarrow>
               (case parseDate dateStr of
                  None \<Rightarrow> extractDate parseDate patterns text
                | Some parsedDate \<Rightarrow> Some parsedDate)))"

text \<open>The merchant: the first of the given lines that passes the four tests.\<close>

definition merchantLine :: "jstring \<Rightarrow> bool" where
  "merchantLine line \<longleftrightarrow>
     3 < length line \<and> length line < 50
     \<and> string_match line digitsPattern = None
     \<and> \<not> includesStr (toLowerCase line) (js ''receipt'')
     \<and> \<not> includesStr (toLowerCase line) (js ''bill'')"

fun extractMerchant :: "jstring list \<Rightarrow> jstring option" where
  "extractMerchant [] = None"
| "extractMerchant (line # topLines) =
     (if merchantLine line then Some line else extractMerchant topLines)"

text \<open>The items: each line with a price, cleaned, kept when more than 2 units remain.\<close>

fun extractItems :: "jstring list \<Rightarrow> jstring list" where
  "extractItems [] = []"
| "extractItems (line # lines) =
     (if string_match line itemPattern \<noteq> None then
        (let itemName = trim (remove_class True itemNoise line)
         in if 2 < length itemName then itemName # extractItems lines
            else extractItems lines)
      else extractItems lines)"

definition parseReceiptText :: "(jstring \<Rightarrow> 'd option) \<Rightarrow> jstring \<Rightarrow> 'd parsed" where
  "parseReceiptText parseDate text =
     (let lines = filter (\<lambda>line. 0 < length line) (map trim (split 0xA text))
      in \<lparr>amount = extractAmount amountPatterns text,
          merchant = extractMerchant (take 5 lines),
          date = extractDate parseDate datePatterns text,
          items = extractItems lines,
          rawText = text\<rparr>)"

subsection \<open>\<open>calculateConfidence\<close>\<close>

text \<open>
  The tests are tests of truthiness: a number counts unless it is \<open>null\<close> or 0, a string
  unless it is \<open>null\<close> or empty, a date object unless it is \<open>null\<close>.
\<close>

definition truthyNum :: "rat option \<Rightarrow> bool" where
  "truthyNum x = (case x of None \<Rightarrow> False | Some q \<Rightarrow> q \<noteq> 0)"

definition truthyStr :: "jstring option \<Rightarrow> bool" where
  "truthyStr x = (case x of None \<Rightarrow> False | Some s \<Rightarrow> s \<noteq> [])"

definition calculateConfidence :: "'d parsed \<Rightarrow> int" where
  "calculateConfidence p =
     (let score = 0;
          score = (if truthyNum (amount p) then score + 40 else score);
          score = (if truthyStr (merchant p) then score + 30 else score);
          score = (if date p \<noteq> None then score + 20 else score);
          score = (if 0 < length (items p) then score + 10 else score)
      in min score 100)"

subsection \<open>\<open>processReceipt\<close>\<close>

text \<open>
  \<open>processReceipt\<close> awaits the file check and the OCR engine and then works on the text
  they give; the model starts from that text. The two errors thrown after that point are
  caught by the function itself and returned as the failure result with their message.
  \<open>now\<close> is the value of \<open>new Date()\<close> at the time of the call.
\<close>

datatype error = EmptyInput | AmountNotFound

fun message :: "error \<Rightarrow> jstring" where
  "message EmptyInput = js ''No text could be extracted from the image''"
| "message AmountNotFound = js ''Could not extract amount from receipt''"

record 'd receipt =
  r_amount :: rat
  r_category :: jstring
  r_description :: jstring
  r_date :: 'd
  r_merchant :: "jstring option"
  r_items :: "jstring list"
  r_confidence :: int

record 'd success =
  data :: "'d receipt"
  rawData :: "jstring \<times> 'd parsed"

definition describe :: "'d parsed \<Rightarrow> jstring" where
  "describe p =
     (let description = [];
          description = (if truthyStr (merchant p)
                         then js ''Purchase at '' @ (case merchant p of None \<Rightarrow> [] | Some m \<Rightarrow> m)
                         else description);
          description = (if 0 < length (items p)
                         then description @ js '' - '' @ join (js '', '') (take 3 (items p))
                         else description)
      in if description = [] then js ''Receipt purchase'' else description)"

definition processReceipt ::
    "(jstring \<Rightarrow> 'd option) \<Rightarrow> 'd \<Rightarrow> jstring \<Rightarrow> error + 'd success" where
  "processReceipt parseDate now extractedText =
     (if extractedText = [] \<or> length (trim extractedText) = 0 then Inl EmptyInput
      else
        (let p = parseReceiptText parseDate extractedText
         in case amount p of
              None \<Rightarrow> Inl AmountNotFound
            | Some a \<Rightarrow>
                if a = 0 then Inl AmountNotFound
                else
                  Inr \<lparr>data =
                         \<lparr>r_amount = a,
                          r_category =
                            determineCategory (if truthyStr (merchant p)
                                               then (case merchant p of None \<Rightarrow> [] | Some m \<Rightarrow> m)
                                               else []) (items p),
                          r_description = describe p,
                          r_date = (case date p of None \<Rightarrow> now | Some d \<Rightarrow> d),
                          r_merchant = merchant p,
                          r_items = items p,
                          r_confidence = calculateConfidence p\<rparr>,
                       rawData = (extractedText, p)\<rparr>))"

subsection \<open>The tie-break of the categorizer, as the specification words it\<close>

text \<open>
  The specification describes the result of the categorizer as the category of the first
  (category, keyword) pair, in the order of the table, whose keyword occurs in the search
  text. \<open>categoryKeywordPairs\<close> is that order and \<open>firstMatch\<close> that description; the
  categorizer of the source is \<open>determineCategory\<close> above.
\<close>

definition categoryKeywordPairs :: "(jstring \<times> jstring) list" where
  "categoryKeywordPairs =
     concat (map (\<lambda>(category, keywords). map (Pair category) keywords) categoryMappings)"

definition firstMatch :: "jstring \<Rightarrow> jstring" where
  "firstMatch searchText =
     (case find (\<lambda>(category, keyword). includesStr searchText keyword) categoryKeywordPairs of
        None \<Rightarrow> js ''Others''
      | Some (category, keyword) \<Rightarrow> category)"

section \<open>Properties\<close>

subsection \<open>The matcher\<close>

text \<open>
  A match consumes a front part of the string, so the text returned by \<open>re_exec\<close> is a
  contiguous part of the string searched; and what is left of a candidate after cleaning
  holds digits and dots only, which is all that \<open>parseFloat\<close> above has to read.
\<close>

lemma star_iter_suffix:
  assumes "\<And>st st'. st' \<in> set (f st) \<Longrightarrow> suffix (fst st') (fst st)"
  shows "st' \<in> set (star_iter f k st) \<Longrightarrow> suffix (fst st') (fst st)"
proof (induction k arbitrary: st)
  case 0
  then show ?case by simp
next
  case (Suc k)
  from Suc.prems consider "st' = st"
    | st1 where "st1 \<in> set (f st)" "st' \<in> set (star_iter f k st1)"
    by auto
  then show ?case
  proof cases
    case 1
    then show ?thesis by simp
  next
    case 2
    from Suc.IH [OF 2(2)] assms [OF 2(1)] show ?thesis
      by (rule suffix_order.trans)
  qed
qed

lemma rmatch_suffix:
  "st' \<in> set (rmatch ic r st) \<Longrightarrow> suffix (fst st') (fst st)"
proof (induction r arbitrary: st st')
  case Eps
  then show ?case by simp
next
  case (Class cs)
  then show ?case
    by (cases st) (auto simp: suffix_def split: list.splits if_splits)
next
  case (Seq r1 r2)
  from Seq.prems obtain st1 where "st1 \<in> set (rmatch ic r1 st)" "st' \<in> set (rmatch ic r2 st1)"
    by auto
  with Seq.IH show ?case
    by (blast intro: suffix_order.trans)
next
  case (Alt r1 r2)
  from Alt.prems have "st' \<in> set (rmatch ic r1 st) \<or> st' \<in> set (rmatch ic r2 st)"
    by simp
  with Alt.IH show ?case by blast
next
  case (Star r)
  from Star.prems have "st' \<in> set (star_iter (rmatch ic r) (length (fst st)) st)"
    by simp
  then show ?case
    by (rule star_iter_suffix [rotated]) (rule Star.IH)
next
  case (Group n r)
  then show ?case
    by (cases st) (auto split: prod.splits)
qed

lemma match_here_prefix:
  assumes "match_here ic r s = Some (m, caps)"
  shows "prefix m s"
proof -
  from assms obtain s' rest where
    e: "rmatch ic r (s, Map.empty) = (s', caps) # rest" and m: "m = take (length s - length s') s"
    by (auto simp: match_here_def split: list.splits)
  then show ?thesis by (simp add: take_is_prefix)
qed

lemma re_exec_part:
  "re_exec ic r s = Some (m, caps) \<Longrightarrow> \<exists>p q. s = p @ m @ q"
proof (induction s)
  case Nil
  then show ?case by (auto dest: match_here_prefix)
next
  case (Cons c cs)
  show ?case
  proof (cases "match_here ic r (c # cs)")
    case None
    with Cons obtain p q where "cs = p @ m @ q" by auto
    then have "c # cs = (c # p) @ m @ q" by simp
    then show ?thesis by blast
  next
    case (Some a)
    with Cons.prems have "match_here ic r (c # cs) = Some (m, caps)" by simp
    from match_here_prefix [OF this] obtain q where "c # cs = [] @ m @ q"
      by (auto simp: prefix_def)
    then show ?thesis by blast
  qed
qed

lemma cleanAmount_digits_dots:
  "c \<in> set (cleanAmount s) \<Longrightarrow> isDigit c \<or> c = of_char CHR ''.''"
  by (auto simp: cleanAmount_def keep_class_def remove_class_def in_class_def)

subsection \<open>What the extractors return\<close>

lemma extractAmount_reasonable:
  "extractAmount ps t = Some q \<Longrightarrow> 0 < q \<and> q < 100000"
proof (induction ps)
  case Nil
  then show ?case by simp
next
  case (Cons p ps)
  then show ?case
    by (auto simp: Let_def reasonable_def split: option.splits if_splits)
qed

lemma extractMerchant_nonempty:
  "extractMerchant ls = Some m \<Longrightarrow> m \<noteq> []"
  by (induction ls) (auto simp: merchantLine_def split: if_splits)

lemma trim_Nil [simp]: "trim [] = []"
  by (simp add: trim_def)

lemma parsed_amount [simp]: "amount (parseReceiptText pd t) = extractAmount amountPatterns t"
  by (simp add: parseReceiptText_def Let_def)

lemma parsed_date [simp]: "date (parseReceiptText pd t) = extractDate pd datePatterns t"
  by (simp add: parseReceiptText_def Let_def)

lemma truthy_amount:
  "truthyNum (amount (parseReceiptText pd t)) \<longleftrightarrow> amount (parseReceiptText pd t) \<noteq> None"
  using extractAmount_reasonable [of amountPatterns t]
  by (auto simp: truthyNum_def split: option.splits)

lemma truthy_merchant:
  "truthyStr (merchant (parseReceiptText pd t)) \<longleftrightarrow> merchant (parseReceiptText pd t) \<noteq> None"
  by (auto simp: truthyStr_def parseReceiptText_def Let_def split: option.splits
           dest: extractMerchant_nonempty)

subsection \<open>Outcomes of \<open>processReceipt\<close>\<close>

text \<open>
  Claim C1. For every text, \<open>processReceipt\<close> fails with \<open>EmptyInput\<close> exactly when the
  text is empty after trimming, fails with \<open>AmountNotFound\<close> exactly when the text is not
  empty after trimming and the amount loop accepts no amount, and succeeds in every other
  case; the empty text and the text of three spaces give \<open>EmptyInput\<close>. Neither failure
  condition looks at the merchant, the date or the items.
\<close>

theorem processReceipt_outcomes:
  "(processReceipt pd now t = Inl EmptyInput \<longleftrightarrow> trim t = [])
   \<and> (processReceipt pd now t = Inl AmountNotFound \<longleftrightarrow>
        trim t \<noteq> [] \<and> extractAmount amountPatterns t = None)
   \<and> ((\<exists>r. processReceipt pd now t = Inr r) \<longleftrightarrow>
        trim t \<noteq> [] \<and> extractAmount amountPatterns t \<noteq> None)
   \<and> processReceipt pd now (js '''') = Inl EmptyInput
   \<and> processReceipt pd now (js ''   '') = Inl EmptyInput"
proof -
  have blank: "t = [] \<or> length (trim t) = 0 \<longleftrightarrow> trim t = []" for t
    by auto
  have nz: "extractAmount amountPatterns t \<noteq> Some 0"
    using extractAmount_reasonable [of amountPatterns t 0] by auto
  have e1: "processReceipt pd now t = Inl EmptyInput \<longleftrightarrow> trim t = []"
    unfolding processReceipt_def blank
    by (simp add: Let_def split: option.splits)
  have e2: "processReceipt pd now t = Inl AmountNotFound \<longleftrightarrow>
        trim t \<noteq> [] \<and> extractAmount amountPatterns t = None"
    unfolding processReceipt_def blank using nz
    by (auto simp: Let_def split: option.splits)
  have e3: "(\<exists>r. processReceipt pd now t = Inr r) \<longleftrightarrow>
        trim t \<noteq> [] \<and> extractAmount amountPatterns t \<noteq> None"
    unfolding processReceipt_def blank using nz
    by (auto simp: Let_def split: option.splits)
  have t1: "trim (js '''') = []" by (simp add: js_def)
  have t2: "trim (js ''   '') = []" by (simp add: js_def trim_def isSpace_def)
  have e4: "processReceipt pd now (js '''') = Inl EmptyInput"
    unfolding processReceipt_def blank t1 by simp
  have e5: "processReceipt pd now (js ''   '') = Inl EmptyInput"
    unfolding processReceipt_def blank t2 by simp
  from e1 e2 e3 e4 e5 show ?thesis by blast
qed

text \<open>
  The theorem at two texts: one without any number, which fails for want of an amount, and
  the rupee sign followed by \<open>5\<close>, which has an amount and no merchant, date or item, and
  succeeds.
\<close>

theorem processReceipt_outcomes_witness:
  "processReceipt (\<lambda>s. None) (0::nat) (js ''random unrelated text with no numbers'')
     = Inl AmountNotFound
   \<and> (\<exists>r. processReceipt (\<lambda>s. None) (0::nat) [rupee, 0x35] = Inr r)"
proof -
  have a: "trim (js ''random unrelated text with no numbers'') \<noteq> []
           \<and> extractAmount amountPatterns (js ''random unrelated text with no numbers'') = None"
    by code_simp
  have b: "trim [rupee, 0x35] \<noteq> [] \<and> extractAmount amountPatterns [rupee, 0x35] \<noteq> None"
    by code_simp
  from a b
    processReceipt_outcomes [of "\<lambda>s. None" "0::nat" "js ''random unrelated text with no numbers''"]
    processReceipt_outcomes [of "\<lambda>s. None" "0::nat" "[rupee, 0x35]"]
  show ?thesis by blast
qed

lemma processReceipt_Inr:
  assumes "processReceipt pd now t = Inr r"
  shows "\<exists>a. extractAmount amountPatterns t = Some a \<and> a \<noteq> 0
     \<and> data r =
         \<lparr>r_amount = a,
          r_category =
            determineCategory
              (if truthyStr (merchant (parseReceiptText pd t))
               then (case merchant (parseReceiptText pd t) of None \<Rightarrow> [] | Some m \<Rightarrow> m)
               else [])
              (items (parseReceiptText pd t)),
          r_description = describe (parseReceiptText pd t),
          r_date = (case extractDate pd datePatterns t of None \<Rightarrow> now | Some d \<Rightarrow> d),
          r_merchant = merchant (parseReceiptText pd t),
          r_items = items (parseReceiptText pd t),
          r_confidence = calculateConfidence (parseReceiptText pd t)\<rparr>"
  using assms
  by (auto simp: processReceipt_def Let_def split: if_splits option.splits)

text \<open>
  Claim C2. Whenever \<open>processReceipt\<close> succeeds, the amount of the result is the amount
  the parser found, it is greater than 0 and less than 100000, and the date of the result
  is the extracted date when there is one and \<open>now\<close> when there is none.
\<close>

theorem success_amount_and_date:
  assumes "processReceipt pd now t = Inr r"
  shows "amount (parseReceiptText pd t) = Some (r_amount (data r))
     \<and> 0 < r_amount (data r) \<and> r_amount (data r) < 100000
     \<and> r_date (data r) = (case extractDate pd datePatterns t of None \<Rightarrow> now | Some d \<Rightarrow> d)"
proof -
  from processReceipt_Inr [OF assms] obtain a where
    a: "extractAmount amountPatterns t = Some a" and d: "r_amount (data r) = a"
      "r_date (data r) = (case extractDate pd datePatterns t of None \<Rightarrow> now | Some d \<Rightarrow> d)"
    by auto
  from extractAmount_reasonable [OF a] a d show ?thesis by simp
qed

text \<open>
  The theorem at a text with a date line and a total, every date text taken as valid: the
  amount is 450 and the date is the one of the text.
\<close>

theorem success_amount_and_date_witness:
  "\<exists>r. processReceipt Some (js ''now'') (js ''Date: 12/05/2024\<newline>Total: Rs. 450.00'') = Inr r
     \<and> r_amount (data r) = 450 \<and> 0 < r_amount (data r) \<and> r_amount (data r) < 100000
     \<and> r_date (data r) = js ''12/05/2024''"
proof -
  let ?t = "js ''Date: 12/05/2024\<newline>Total: Rs. 450.00''"
  have v: "map_sum id (\<lambda>r. r_amount (data r)) (processReceipt Some (js ''now'') ?t) = Inr 450"
    by code_simp
  have d: "extractDate Some datePatterns ?t = Some (js ''12/05/2024'')"
    by code_simp
  from v obtain r where h: "processReceipt Some (js ''now'') ?t = Inr r"
    by (cases "processReceipt Some (js ''now'') ?t") auto
  from v h have a: "r_amount (data r) = 450" by simp
  from success_amount_and_date [OF h] d
  have "0 < r_amount (data r) \<and> r_amount (data r) < 100000
      \<and> r_date (data r) = js ''12/05/2024''"
    by simp
  with h a show ?thesis by blast
qed

text \<open>The same text when no date text is valid: the date of the result is \<open>now\<close>.\<close>

lemma success_date_defaults_to_now:
  "\<exists>r. processReceipt (\<lambda>s. None) (js ''now'') (js ''Date: 12/05/2024\<newline>Total: Rs. 450.00'') = Inr r
     \<and> r_date (data r) = js ''now''"
proof -
  let ?t = "js ''Date: 12/05/2024\<newline>Total: Rs. 450.00''"
  have v: "map_sum id (\<lambda>r. r_date (data r)) (processReceipt (\<lambda>s. None) (js ''now'') ?t)
             = Inr (js ''now'')"
    by code_simp
  then obtain r where h: "processReceipt (\<lambda>s. None) (js ''now'') ?t = Inr r"
    by (cases "processReceipt (\<lambda>s. None) (js ''now'') ?t") auto
  with v show ?thesis by simp
qed

subsection \<open>Confidence\<close>

lemma calculateConfidence_sum:
  "calculateConfidence p =
     (if truthyNum (amount p) then 40 else 0) + (if truthyStr (merchant p) then 30 else 0)
     + (if date p \<noteq> None then 20 else 0) + (if items p \<noteq> [] then 10 else 0)"
  by (simp add: calculateConfidence_def Let_def)

text \<open>
  Claim C5. For the extraction assembled from any text, the confidence is 40 for a present
  amount plus 30 for a present merchant plus 20 for a present date plus 10 for a non-empty
  item list, capped at 100; it lies between 0 and 100, and it is 100 exactly when all four
  are there.
\<close>

theorem confidence_score:
  fixes pd :: "jstring \<Rightarrow> 'd option"
  shows "calculateConfidence (parseReceiptText pd t) =
       min 100
         ((if amount (parseReceiptText pd t) \<noteq> None then 40 else 0)
          + (if merchant (parseReceiptText pd t) \<noteq> None then 30 else 0)
          + (if date (parseReceiptText pd t) \<noteq> None then 20 else 0)
          + (if items (parseReceiptText pd t) \<noteq> [] then 10 else 0))
     \<and> 0 \<le> calculateConfidence (parseReceiptText pd t)
     \<and> calculateConfidence (parseReceiptText pd t) \<le> 100
     \<and> (calculateConfidence (parseReceiptText pd t) = 100 \<longleftrightarrow>
          amount (parseReceiptText pd t) \<noteq> None \<and> merchant (parseReceiptText pd t) \<noteq> None
          \<and> date (parseReceiptText pd t) \<noteq> None \<and> items (parseReceiptText pd t) \<noteq> [])"
  unfolding calculateConfidence_sum truthy_amount truthy_merchant
  by (simp split: if_splits)

text \<open>
  The theorem at a receipt with merchant, item and total: 80 without a date, 100 when a
  date line is added and read.
\<close>

theorem confidence_score_witness:
  "calculateConfidence
     (parseReceiptText (\<lambda>s. None :: nat option)
        (js ''CAFE COFFEE DAY\<newline>Cappuccino  Rs.120\<newline>Total: Rs.120'')) = 80
   \<and> calculateConfidence
     (parseReceiptText (\<lambda>s. Some (0::nat))
        (js ''CAFE COFFEE DAY\<newline>12/05/2024\<newline>Cappuccino  Rs.120\<newline>Total: Rs.120'')) = 100"
proof -
  let ?p = "parseReceiptText (\<lambda>s. None :: nat option)
        (js ''CAFE COFFEE DAY\<newline>Cappuccino  Rs.120\<newline>Total: Rs.120'')"
  let ?q = "parseReceiptText (\<lambda>s. Some (0::nat))
        (js ''CAFE COFFEE DAY\<newline>12/05/2024\<newline>Cappuccino  Rs.120\<newline>Total: Rs.120'')"
  have p: "amount ?p \<noteq> None \<and> merchant ?p \<noteq> None \<and> date ?p = None \<and> items ?p \<noteq> []"
    by code_simp
  have q: "amount ?q \<noteq> None \<and> merchant ?q \<noteq> None \<and> date ?q \<noteq> None \<and> items ?q \<noteq> []"
    by code_simp
  from p have "calculateConfidence ?p = 80"
    by (simp add: confidence_score [of "\<lambda>s. None :: nat option"] del: parsed_amount parsed_date)
  moreover from q have "calculateConfidence ?q = 100"
    using confidence_score [of "\<lambda>s. Some (0::nat)"
        "js ''CAFE COFFEE DAY\<newline>12/05/2024\<newline>Cappuccino  Rs.120\<newline>Total: Rs.120''"]
    by blast
  ultimately show ?thesis by blast
qed

text \<open>
  Claim C10. Every success of \<open>processReceipt\<close> has a confidence of at least 40, and that
  confidence is one of 40, 50, 60, 70, 80, 90 and 100: the amount is there, so its 40
  points are earned.
\<close>

theorem success_confidence:
  assumes "processReceipt pd now t = Inr r"
  shows "40 \<le> r_confidence (data r)
     \<and> r_confidence (data r) \<in> {40, 50, 60, 70, 80, 90, 100}"
proof -
  from processReceipt_Inr [OF assms] obtain a where
    a: "extractAmount amountPatterns t = Some a" "a \<noteq> 0"
    and c: "r_confidence (data r) = calculateConfidence (parseReceiptText pd t)"
    by auto
  from a have "truthyNum (amount (parseReceiptText pd t))"
    by (simp add: truthyNum_def)
  then show ?thesis
    unfolding c calculateConfidence_sum by (simp split: if_splits)
qed

text \<open>The theorem at the rupee sign followed by \<open>5\<close>: amount only, confidence 40.\<close>

theorem success_confidence_witness:
  "\<exists>r. processReceipt (\<lambda>s. None) (0::nat) [rupee, 0x35] = Inr r
     \<and> r_confidence (data r) = 40 \<and> 40 \<le> r_confidence (data r)
     \<and> r_confidence (data r) \<in> {40, 50, 60, 70, 80, 90, 100}"
proof -
  have v: "map_sum id (\<lambda>r. r_confidence (data r)) (processReceipt (\<lambda>s. None) (0::nat) [rupee, 0x35])
            = Inr 40"
    by code_simp
  then obtain r where h: "processReceipt (\<lambda>s. None) (0::nat) [rupee, 0x35] = Inr r"
    by (cases "processReceipt (\<lambda>s. None) (0::nat) [rupee, 0x35]") auto
  from v h have e: "r_confidence (data r) = 40" by simp
  have c: "40 \<le> r_confidence (data r) \<and> r_confidence (data r) \<in> {40, 50, 60, 70, 80, 90, 100}"
    by (rule success_confidence [OF h])
  from h e c show ?thesis by blast
qed

subsection \<open>The categorizer\<close>

lemma startsWith_iff: "startsWith s k \<longleftrightarrow> (\<exists>q. s = k @ q)"
  by (induction s k rule: startsWith.induct) auto

lemma includesStr_iff: "includesStr s k \<longleftrightarrow> (\<exists>p q. s = p @ k @ q)"
proof (induction s)
  case Nil
  then show ?case by (cases k) auto
next
  case (Cons c cs)
  show ?case
  proof
    assume "includesStr (c # cs) k"
    then consider "startsWith (c # cs) k" | "includesStr cs k" by auto
    then show "\<exists>p q. c # cs = p @ k @ q"
    proof cases
      case 1
      then obtain q where "c # cs = [] @ k @ q" by (auto simp: startsWith_iff)
      then show ?thesis by blast
    next
      case 2
      with Cons obtain p q where "cs = p @ k @ q" by auto
      then have "c # cs = (c # p) @ k @ q" by simp
      then show ?thesis by blast
    qed
  next
    assume "\<exists>p q. c # cs = p @ k @ q"
    then obtain p q where e: "c # cs = p @ k @ q" by auto
    show "includesStr (c # cs) k"
    proof (cases p)
      case Nil
      with e have "startsWith (c # cs) k" by (auto simp: startsWith_iff)
      then show ?thesis by simp
    next
      case (Cons a p')
      with e have "cs = p' @ k @ q" by simp
      with Cons.IH have "includesStr cs k" by blast
      then show ?thesis by simp
    qed
  qed
qed

lemma findKeyword_iff:
  "findKeyword st ks \<longleftrightarrow> (\<exists>k\<in>set ks. includesStr st (toLowerCase k))"
  by (induction ks) auto

lemma findCategory_range:
  "findCategory st es \<in> set (map fst es) \<union> {js ''Others''}"
proof (induction es)
  case Nil
  show ?case by simp
next
  case (Cons e es)
  obtain c ks where e: "e = (c, ks)" by (cases e)
  show ?case
  proof (cases "findKeyword st ks")
    case True
    with e show ?thesis by simp
  next
    case False
    with e Cons show ?thesis by auto
  qed
qed

lemma findCategory_Others:
  assumes "js ''Others'' \<notin> set (map fst es)"
  shows "findCategory st es = js ''Others'' \<longleftrightarrow> (\<forall>(c, ks)\<in>set es. \<not> findKeyword st ks)"
  using assms
proof (induction es)
  case Nil
  show ?case by simp
next
  case (Cons e es)
  obtain c ks where e: "e = (c, ks)" by (cases e)
  from Cons.prems e have c: "c \<noteq> js ''Others''" and f: "js ''Others'' \<notin> set (map fst es)"
    by auto
  show ?case
  proof (cases "findKeyword st ks")
    case True
    with e c show ?thesis by simp
  next
    case False
    with e Cons.IH [OF f] show ?thesis by simp
  qed
qed

lemma category_names:
  "map fst categoryMappings =
     [js ''Food & Dining'', js ''Transportation'', js ''Shopping'', js ''Healthcare'',
      js ''Utilities'', js ''Entertainment'']"
  by (simp add: categoryMappings_def)

lemma Others_fresh: "js ''Others'' \<notin> set (map fst categoryMappings)"
  unfolding category_names by (simp add: js_def)

lemma keywords_lower:
  "\<forall>(c, ks)\<in>set categoryMappings. \<forall>k\<in>set ks. toLowerCase k = k"
  by code_simp

text \<open>
  Claim C4. For every merchant text and every item list, \<open>determineCategory\<close> returns one
  of the seven category names, and it returns \<open>Others\<close> exactly when no keyword of the
  table occurs in the lower-cased text made of the merchant, a space and the items joined
  by spaces. (\<open>includesStr_iff\<close> says that \<open>includesStr s k\<close> is: \<open>k\<close> is a contiguous part of
  \<open>s\<close>.)
\<close>

theorem determineCategory_total:
  "determineCategory m its \<in>
     {js ''Food & Dining'', js ''Transportation'', js ''Shopping'', js ''Healthcare'',
      js ''Utilities'', js ''Entertainment'', js ''Others''}
   \<and> (determineCategory m its = js ''Others'' \<longleftrightarrow>
        (\<forall>(c, ks)\<in>set categoryMappings. \<forall>k\<in>set ks.
           \<not> includesStr (toLowerCase (m @ js '' '' @ join (js '' '') its)) k))"
proof -
  have "determineCategory m its \<in> set (map fst categoryMappings) \<union> {js ''Others''}"
    unfolding determineCategory_def by (rule findCategory_range)
  then have r: "determineCategory m its \<in>
     {js ''Food & Dining'', js ''Transportation'', js ''Shopping'', js ''Healthcare'',
      js ''Utilities'', js ''Entertainment'', js ''Others''}"
    unfolding category_names by auto
  have "determineCategory m its = js ''Others'' \<longleftrightarrow>
        (\<forall>(c, ks)\<in>set categoryMappings. \<forall>k\<in>set ks.
           \<not> includesStr (searchTextOf m its) (toLowerCase k))"
    unfolding determineCategory_def findCategory_Others [OF Others_fresh] findKeyword_iff
    by auto
  also have "\<dots> \<longleftrightarrow> (\<forall>(c, ks)\<in>set categoryMappings. \<forall>k\<in>set ks.
           \<not> includesStr (searchTextOf m its) k)"
    using keywords_lower by fastforce
  finally show ?thesis using r by (simp add: searchTextOf_def)
qed

text \<open>
  The theorem at the empty merchant without items, where no keyword occurs, and at a
  merchant text in which keywords occur.
\<close>

theorem determineCategory_total_witness:
  "determineCategory (js '''') [] = js ''Others''
   \<and> determineCategory (js ''uber mall'') [] \<noteq> js ''Others''"
proof -
  have a: "\<forall>(c, ks)\<in>set categoryMappings. \<forall>k\<in>set ks.
             \<not> includesStr (toLowerCase (js '''' @ js '' '' @ join (js '' '') [])) k"
    by code_simp
  have b: "\<not> (\<forall>(c, ks)\<in>set categoryMappings. \<forall>k\<in>set ks.
             \<not> includesStr (toLowerCase (js ''uber mall'' @ js '' '' @ join (js '' '') [])) k)"
    by code_simp
  from a b determineCategory_total [of "js ''''" "[]"]
    determineCategory_total [of "js ''uber mall''" "[]"]
  show ?thesis by blast
qed

lemma find_pairs_append:
  "find P (xs @ ys) = (case find P xs of None \<Rightarrow> find P ys | Some x \<Rightarrow> Some x)"
  by (induction xs) auto

lemma findKeyword_False_find:
  "\<not> findKeyword st ks \<Longrightarrow>
   find (\<lambda>(c, k). includesStr st (toLowerCase k)) (map (Pair c) ks) = None"
  by (induction ks) (auto split: if_splits)

lemma findKeyword_True_find:
  "findKeyword st ks \<Longrightarrow>
   \<exists>k. find (\<lambda>(c, k). includesStr st (toLowerCase k)) (map (Pair c) ks) = Some (c, k)"
  by (induction ks) (auto split: if_splits)

lemma findCategory_find:
  "findCategory st es =
     (case find (\<lambda>(c, k). includesStr st (toLowerCase k))
             (concat (map (\<lambda>(c, ks). map (Pair c) ks) es)) of
        None \<Rightarrow> js ''Others''
      | Some (c, k) \<Rightarrow> c)"
proof (induction es)
  case Nil
  show ?case by simp
next
  case (Cons e es)
  obtain c ks where e: "e = (c, ks)" by (cases e)
  show ?case
  proof (cases "findKeyword st ks")
    case True
    from findKeyword_True_find [OF True, of c] obtain k where
      "find (\<lambda>(c, k). includesStr st (toLowerCase k)) (map (Pair c) ks) = Some (c, k)" ..
    with True e show ?thesis
      by (simp add: find_pairs_append)
  next
    case False
    from findKeyword_False_find [OF False, of c] False e Cons show ?thesis
      by (simp add: find_pairs_append)
  qed
qed

lemma pairs_lower:
  "map (\<lambda>(c, k). (c, toLowerCase k)) categoryKeywordPairs = categoryKeywordPairs"
  by code_simp

lemma find_map_lower:
  "find (\<lambda>(c, k). P (f k)) xs = None \<longleftrightarrow> find (\<lambda>(c, k). P k) (map (\<lambda>(c, k). (c, f k)) xs) = None"
  "find (\<lambda>(c, k). P (f k)) xs = Some (a, b) \<Longrightarrow> find (\<lambda>(c, k). P k) (map (\<lambda>(c, k). (c, f k)) xs) = Some (a, f b)"
  by (induction xs) (auto split: if_splits)

text \<open>
  Claim C8. For every merchant text and item list, in particular when keywords of several
  categories occur in the search text, \<open>determineCategory\<close> returns the category of the
  first (category, keyword) pair that occurs, the pairs taken category by category in the
  order Food & Dining, Transportation, Shopping, Healthcare, Utilities, Entertainment and
  within a category in the order of its keyword list. Counts of matches play no part.
\<close>

theorem determineCategory_first_match:
  "determineCategory m its = firstMatch (toLowerCase (m @ js '' '' @ join (js '' '') its))
   \<and> map fst categoryMappings =
       [js ''Food & Dining'', js ''Transportation'', js ''Shopping'', js ''Healthcare'',
        js ''Utilities'', js ''Entertainment'']"
proof -
  let ?st = "searchTextOf m its"
  let ?f = "find (\<lambda>(c, k). includesStr ?st (toLowerCase k)) categoryKeywordPairs"
  have a: "determineCategory m its = (case ?f of None \<Rightarrow> js ''Others'' | Some (c, k) \<Rightarrow> c)"
    unfolding determineCategory_def categoryKeywordPairs_def by (rule findCategory_find)
  have "(case ?f of None \<Rightarrow> js ''Others'' | Some (c, k) \<Rightarrow> c) = firstMatch ?st"
  proof (cases ?f)
    case None
    then have "find (\<lambda>(c, k). includesStr ?st k) categoryKeywordPairs = None"
      using find_map_lower(1) [of "includesStr ?st" toLowerCase categoryKeywordPairs] pairs_lower
      by simp
    with None show ?thesis by (simp add: firstMatch_def)
  next
    case (Some x)
    obtain c k where x: "x = (c, k)" by (cases x)
    with Some have "find (\<lambda>(c, k). includesStr ?st k) categoryKeywordPairs = Some (c, toLowerCase k)"
      using find_map_lower(2) [of "includesStr ?st" toLowerCase categoryKeywordPairs c k] pairs_lower
      by simp
    with Some x show ?thesis by (simp add: firstMatch_def)
  qed
  with a category_names show ?thesis by (simp add: searchTextOf_def)
qed

text \<open>
  The theorem at three texts in which \<open>uber\<close> (Transportation) and \<open>mall\<close> (Shopping,
  Entertainment) both occur, in either order, the last with three Entertainment keywords
  against one of Transportation.
\<close>

theorem determineCategory_first_match_witness:
  "determineCategory (js ''uber mall'') [] = js ''Transportation''
   \<and> determineCategory (js ''Mall parking'') [js ''Uber''] = js ''Transportation''
   \<and> determineCategory (js ''PVR Cinema Mall'') [js ''Movie'', js ''Uber''] = js ''Transportation''"
proof -
  have a: "firstMatch (toLowerCase (js ''uber mall'' @ js '' '' @ join (js '' '') []))
             = js ''Transportation''"
    by code_simp
  have b: "firstMatch (toLowerCase (js ''Mall parking'' @ js '' '' @ join (js '' '') [js ''Uber'']))
             = js ''Transportation''"
    by code_simp
  have c: "firstMatch (toLowerCase (js ''PVR Cinema Mall'' @ js '' ''
               @ join (js '' '') [js ''Movie'', js ''Uber'']))
             = js ''Transportation''"
    by code_simp
  from a b c determineCategory_first_match [of "js ''uber mall''" "[]"]
    determineCategory_first_match [of "js ''Mall parking''" "[js ''Uber'']"]
    determineCategory_first_match [of "js ''PVR Cinema Mall''" "[js ''Movie'', js ''Uber'']"]
  show ?thesis by metis
qed

subsection \<open>The items\<close>

lemma in_itemNoise:
  "in_class True itemNoise c \<longleftrightarrow>
     isDigit c \<or> isSpace c \<or> c \<in> set (rupee # js ''rRsS.-'')"
  by (auto simp: in_class_def itemNoise_def canonicalize_def js_def split: if_splits)

lemma set_trim: "set (trim s) \<subseteq> set s"
proof -
  have "set (trim s) \<subseteq> set (rev (dropWhile isSpace s))"
    unfolding trim_def by (auto dest: set_dropWhileD)
  also have "\<dots> \<subseteq> set s" by (auto dest: set_dropWhileD)
  finally show ?thesis .
qed

lemma extractItems_elem:
  "it \<in> set (extractItems ls) \<Longrightarrow>
   2 < length it \<and> (\<exists>l. it = trim (remove_class True itemNoise l))"
  by (induction ls) (auto simp: Let_def split: if_splits)

lemma parsed_items:
  "items (parseReceiptText pd t) =
     extractItems (filter (\<lambda>line. 0 < length line) (map trim (split 0xA t)))"
  by (simp add: parseReceiptText_def Let_def)

lemma mangled_item:
  "extractItems (filter (\<lambda>line. 0 < length line) (map trim (split 0xA (js ''Burgers Rs.50''))))
     = [js ''Buge'']"
  by code_simp

text \<open>
  Claim C9. Every item returned for any text has at least 3 units and holds no digit, no
  white space, and none of the rupee sign, the dot, the hyphen and the letters r, R, s, S:
  the cleaning removes the letters r and s wherever they stand, so the line
  \<open>Burgers Rs.50\<close> gives the item \<open>Buge\<close>.
\<close>

theorem items_clean:
  "(\<forall>it\<in>set (items (parseReceiptText pd t)).
      3 \<le> length it
      \<and> (\<forall>c\<in>set it. \<not> isDigit c \<and> \<not> isSpace c \<and> c \<notin> set (rupee # js ''.-rRsS'')))
   \<and> items (parseReceiptText pd (js ''Burgers Rs.50'')) = [js ''Buge'']"
proof -
  have "3 \<le> length it
      \<and> (\<forall>c\<in>set it. \<not> isDigit c \<and> \<not> isSpace c \<and> c \<notin> set (rupee # js ''.-rRsS''))"
    if "it \<in> set (items (parseReceiptText pd t))" for it
  proof -
    from that extractItems_elem obtain l where
      n: "2 < length it" and l: "it = trim (remove_class True itemNoise l)"
      unfolding parsed_items by blast
    have "\<not> in_class True itemNoise c" if "c \<in> set it" for c
      using that set_trim [of "remove_class True itemNoise l"] l
      by (auto simp: remove_class_def)
    then have "\<not> isDigit c \<and> \<not> isSpace c \<and> c \<notin> set (rupee # js ''.-rRsS'')"
      if "c \<in> set it" for c
      using that unfolding in_itemNoise by (auto simp: js_def)
    with n show ?thesis by auto
  qed
  moreover have "items (parseReceiptText pd (js ''Burgers Rs.50'')) = [js ''Buge'']"
    unfolding parsed_items by (rule mangled_item)
  ultimately show ?thesis by blast
qed

text \<open>The theorem at the first item of a receipt of three lines.\<close>

theorem items_clean_witness:
  "items (parseReceiptText (\<lambda>s. None :: nat option)
            (js ''CAFE COFFEE DAY\<newline>Cappuccino  Rs.120\<newline>Total: Rs.120''))
     = [js ''Cappuccino'', js ''Total:'']
   \<and> 3 \<le> length (js ''Cappuccino'')
   \<and> list_all (\<lambda>c. \<not> isDigit c \<and> \<not> isSpace c \<and> c \<notin> set (rupee # js ''.-rRsS''))
         (js ''Cappuccino'')"
proof -
  let ?t = "js ''CAFE COFFEE DAY\<newline>Cappuccino  Rs.120\<newline>Total: Rs.120''"
  have e: "extractItems (filter (\<lambda>line. 0 < length line) (map trim (split 0xA ?t)))
             = [js ''Cappuccino'', js ''Total:'']"
    by code_simp
  then have i: "items (parseReceiptText (\<lambda>s. None :: nat option) ?t)
                  = [js ''Cappuccino'', js ''Total:'']"
    unfolding parsed_items .
  then have "js ''Cappuccino'' \<in> set (items (parseReceiptText (\<lambda>s. None :: nat option) ?t))"
    by simp
  with items_clean [of "\<lambda>s. None :: nat option" ?t] i show ?thesis
    unfolding list_all_iff by blast
qed

subsection \<open>The amount patterns on two receipts\<close>

text \<open>
  Claim C3 says that for the two lines \<open>Subtotal: Rs.100\<close> and \<open>Total: Rs.120\<close> the amount
  is 120. It is not: the amount is not 120.
\<close>

theorem subtotal_counterexample:
  "extractAmount amountPatterns (js ''Subtotal: Rs.100\<newline>Total: Rs.120'') \<noteq> Some 120"
  by code_simp

text \<open>
  Claim C3, amended. For the two lines \<open>Subtotal: Rs.100\<close> and \<open>Total: Rs.120\<close> the amount
  is 100. The first pattern carries no word boundary, so its leftmost match begins at the
  \<open>total\<close> inside \<open>Subtotal\<close>: the matched text is \<open>total: Rs.100\<close>, capture group 1 is
  \<open>100\<close>, and the loop stops there.
\<close>

theorem subtotal_amount:
  "string_match (js ''Subtotal: Rs.100\<newline>Total: Rs.120'') (amountPatterns ! 0)
     = Some (js ''total: Rs.100'', [Some (js ''100'')])
   \<and> extractAmount amountPatterns (js ''Subtotal: Rs.100\<newline>Total: Rs.120'') = Some 100"
  by code_simp

text \<open>
  Claim C7 says that when the first pattern gives nothing and the second pattern matches,
  the candidate is the first match of the second pattern. The second pattern carries the
  flag \<open>g\<close>, so the array holds the matched texts and element 1 is the second match: for
  the two lines \<open>rs 100\<close> and \<open>rs 200\<close> the first pattern has no match, the second gives the
  array of \<open>rs 100\<close> and \<open>rs 200\<close>, and the amount is 200.
\<close>

theorem second_match_taken:
  "string_match (js ''rs 100\<newline>rs 200'') (amountPatterns ! 0) = None
   \<and> string_match (js ''rs 100\<newline>rs 200'') (amountPatterns ! 1)
       = Some (js ''rs 100'', [Some (js ''rs 200'')])
   \<and> extractAmount amountPatterns (js ''rs 100\<newline>rs 200'') = Some 200"
  by code_simp

text \<open>
  With one match only the candidate is the whole matched text, marker included, and the
  dot of \<open>rs.\<close> survives the cleaning: \<open>rs.450\<close> is read as 0.45.
\<close>

lemma marker_dot_kept:
  "string_match (js ''rs.450'') (amountPatterns ! 1) = Some (js ''rs.450'', [])
   \<and> cleanAmount (js ''rs.450'') = js ''.450''
   \<and> extractAmount amountPatterns (js ''rs.450'') = Some (45 / 100)"
  by code_simp

text \<open>
  In general: under the flag \<open>g\<close>, as soon as the text holds two matches of the pattern,
  the candidate of the amount loop is the second of them.
\<close>

lemma candidate_global:
  assumes "global re"
    and "match_all (ignoreCase re) (source re) 0 s = m1 # m2 # ms"
    and "m2 \<noteq> []"
  shows "\<exists>matches. string_match s re = Some matches \<and> candidate matches = m2"
  using assms
  by (cases m2) (auto simp: string_match_def candidate_def element_def)

subsection \<open>The description\<close>

lemma describe_cases:
  "describe p =
     (if truthyStr (merchant p) then
        js ''Purchase at '' @ (case merchant p of None \<Rightarrow> [] | Some m \<Rightarrow> m)
          @ (if items p = [] then [] else js '' - '' @ join (js '', '') (take 3 (items p)))
      else if items p = [] then js ''Receipt purchase''
      else js '' - '' @ join (js '', '') (take 3 (items p)))"
  by (simp add: describe_def Let_def js_def)

text \<open>
  With a merchant the description is \<open>Purchase at\<close> and the merchant, followed, when there
  are items, by \<open>-\<close> and the first three items joined by commas.
\<close>

lemma description_with_merchant:
  assumes "processReceipt pd now t = Inr r" and "r_merchant (data r) = Some m"
  shows "r_description (data r) =
           js ''Purchase at '' @ m
             @ (if r_items (data r) = [] then []
                else js '' - '' @ join (js '', '') (take 3 (r_items (data r))))"
proof -
  from processReceipt_Inr [OF assms(1)] have
    d: "r_description (data r) = describe (parseReceiptText pd t)"
    and m: "r_merchant (data r) = merchant (parseReceiptText pd t)"
    and i: "r_items (data r) = items (parseReceiptText pd t)"
    by auto
  from m assms(2) have s: "merchant (parseReceiptText pd t) = Some m"
    by simp
  then have "truthyStr (merchant (parseReceiptText pd t))"
    unfolding truthy_merchant by simp
  with s i show ?thesis
    unfolding d describe_cases by simp
qed

text \<open>
  Claim C6 says that without a merchant the description is \<open>Receipt purchase\<close> whether or
  not there are items. For the text \<open>Total: Rs.120\<close> there is no merchant, the one item is
  \<open>Total:\<close>, and the description is the item part alone, separator first.
\<close>

theorem description_without_merchant:
  "map_sum id (\<lambda>r. (r_merchant (data r), r_items (data r), r_description (data r)))
     (processReceipt (\<lambda>s. None) (0::nat) (js ''Total: Rs.120''))
   = Inr (None, [js ''Total:''], js '' - Total:'')"
  by code_simp

end
